theory Spec2Isabelle
  imports Main "HOL-Library.Sublist"
begin

section \<open>The dispatch store of server.js\<close>

text \<open>
  The server keeps one JSON document, database.json, with five arrays. Every handler
  reads the whole document, changes the object it has read, and writes the whole object
  back (or answers 404 before writing). The model follows that shape: a handler is a
  function from the persisted document to the response and the document persisted
  afterwards.

  The handlers apply \<^verbatim>\<open>parseInt\<close> to the id they take from the path or the
  body. The operations of the model take what \<^verbatim>\<open>parseInt\<close> yields: \<open>Some n\<close> for
  the integer \<open>n\<close>, \<open>None\<close> for NaN (a missing or non-numeric id). NaN is written to
  the document as null, and \<open>None\<close> stands for that null in the document.
  A timestamp stands for the instant that \<^verbatim>\<open>new Date().toISOString()\<close> renders, in
  milliseconds; each call of \<^verbatim>\<open>new Date()\<close> is a parameter of the handler.
\<close>

type_synonym timestamp = nat

text \<open>A field that holds text, or null, or is missing from the record.\<close>

datatype jsval = Undefined | Null | Str string

text \<open>The comparison \<^verbatim>\<open>===\<close> of two numbers that may be NaN or null: NaN equals
  nothing, itself included, and null equals no number.\<close>

definition strict_eq :: "int option \<Rightarrow> int option \<Rightarrow> bool" where
  "strict_eq a b = (a \<noteq> None \<and> a = b)"

subsection \<open>Data model\<close>

record request =
  id :: int
  userInfo :: jsval
  imageUrl :: jsval
  status :: string
  createdAt :: timestamp
  updatedAt :: timestamp

record contact =
  id :: int
  name :: string
  phone :: string
  email :: string
  role :: string
  createdAt :: timestamp

record user =
  id :: int
  username :: string
  email :: string
  role :: string
  status :: string
  createdAt :: timestamp

record admin =
  id :: int
  name :: string
  username :: string
  email :: string
  phone :: string
  level :: string
  status :: string
  createdAt :: timestamp

record assignment =
  id :: int
  requestId :: "int option"
  contactId :: "int option"
  userId :: "int option"
  status :: string
  createdAt :: timestamp

record database =
  requests :: "request list"
  contacts :: "contact list"
  users :: "user list"
  admins :: "admin list"
  assignments :: "assignment list"

datatype response = Success | NotFound

subsection \<open>Array primitives\<close>

text \<open>\<^verbatim>\<open>Array.prototype.findIndex\<close>: the first index whose element satisfies the
  predicate; \<open>None\<close> stands for -1.\<close>

fun findIndex :: "('a \<Rightarrow> bool) \<Rightarrow> 'a list \<Rightarrow> nat option" where
  "findIndex P [] = None"
| "findIndex P (x # xs) = (if P x then Some 0 else map_option Suc (findIndex P xs))"

text \<open>\<^verbatim>\<open>xs.splice(i, 1)\<close>: the array without its element at index \<open>i\<close>.\<close>

definition splice1 :: "nat \<Rightarrow> 'a list \<Rightarrow> 'a list" where
  "splice1 i xs = take i xs @ drop (Suc i) xs"

subsection \<open>Database helpers\<close>

text \<open>The seed document of \<^verbatim>\<open>initializeDatabase\<close>. Its eight records each read the
  clock; \<open>clk k\<close> is the k-th reading.\<close>

definition initialData :: "(nat \<Rightarrow> timestamp) \<Rightarrow> database" where
  "initialData clk = \<lparr>
     requests = [],
     contacts = [
       \<lparr>contact.id = 1, name = ''Ahmed Mechanic'', phone = ''0612345678'',
        email = ''ahmed@roadside.com'', role = ''mechanic'', createdAt = clk 0\<rparr>,
       \<lparr>contact.id = 2, name = ''Fatima Towing'', phone = ''0623456789'',
        email = ''fatima@roadside.com'', role = ''towing'', createdAt = clk 1\<rparr>,
       \<lparr>contact.id = 3, name = ''Karim Emergency'', phone = ''0634567890'',
        email = ''karim@roadside.com'', role = ''emergency'', createdAt = clk 2\<rparr>],
     users = [
       \<lparr>user.id = 1, username = ''admin1'', email = ''admin1@roadside.com'',
        role = ''admin'', status = ''active'', createdAt = clk 3\<rparr>,
       \<lparr>user.id = 2, username = ''superadmin'', email = ''super@roadside.com'',
        role = ''super_admin'', status = ''active'', createdAt = clk 4\<rparr>,
       \<lparr>user.id = 3, username = ''operator1'', email = ''op1@roadside.com'',
        role = ''operator'', status = ''active'', createdAt = clk 5\<rparr>],
     admins = [
       \<lparr>admin.id = 1, name = ''John Admin'', username = ''admin1'',
        email = ''admin1@roadside.com'', phone = ''0612345678'', level = ''admin'',
        status = ''active'', createdAt = clk 6\<rparr>,
       \<lparr>admin.id = 2, name = ''Sarah Super'', username = ''superadmin'',
        email = ''super@roadside.com'', phone = ''0623456789'', level = ''super_admin'',
        status = ''active'', createdAt = clk 7\<rparr>],
     assignments = []\<rparr>"

text \<open>\<^verbatim>\<open>readDatabase\<close> parses the document and returns it. Its defaults for a missing
  array and its fallback for an unreadable file concern documents that no handler
  writes; on the documents of the model it is the identity.\<close>

definition readDatabase :: "database \<Rightarrow> database" where
  "readDatabase file = file"

text \<open>JavaScript numbers are IEEE doubles, with 53 bits of mantissa. \<open>bits n\<close> is the
  number of binary digits of \<open>n\<close>; \<open>toDouble n\<close> is the double nearest to the integer
  \<open>n\<close>, the even mantissa on a tie. An integer of at most 53 bits is a double.
  (Overflow to Infinity, beyond 1024 bits, is left out.)\<close>

fun bits :: "nat \<Rightarrow> nat" where
  "bits n = (if n = 0 then 0 else Suc (bits (n div 2)))"

definition toDouble :: "int \<Rightarrow> int" where
  "toDouble n =
     (if bits (nat \<bar>n\<bar>) \<le> 53 then n
      else let q = 2 ^ (bits (nat \<bar>n\<bar>) - 53); m = n div q; r = n mod q
           in if 2 * r < q then m * q
              else if q < 2 * r then (m + 1) * q
              else if even m then m * q else (m + 1) * q)"

text \<open>\<^verbatim>\<open>getNextId\<close>, on the ids of the collection as \<^verbatim>\<open>readDatabase\<close> returns it:
  1 for the empty collection, \<^verbatim>\<open>Math.max(...ids) + 1\<close> otherwise, the sum being a
  sum of doubles.\<close>

definition getNextId :: "int list \<Rightarrow> int" where
  "getNextId ids = (case ids of [] \<Rightarrow> 1 | x # xs \<Rightarrow> toDouble (fold max xs x + 1))"

subsection \<open>Requests\<close>

text \<open>POST /api/requests. \<open>userInfo'\<close> is the field of the body (\<open>Undefined\<close> when
  the body has none), \<open>imageUrl'\<close> the path of the uploaded file or \<open>Null\<close>; \<open>now1\<close>
  and \<open>now2\<close> are the two clock readings of the handler, for \<^verbatim>\<open>createdAt\<close> and
  \<^verbatim>\<open>updatedAt\<close>.\<close>

definition createRequest ::
  "database \<Rightarrow> jsval \<Rightarrow> jsval \<Rightarrow> timestamp \<Rightarrow> timestamp \<Rightarrow> response \<times> database" where
  "createRequest file userInfo' imageUrl' now1 now2 =
     (let db = readDatabase file;
          newRequest = \<lparr>request.id = getNextId (map request.id (requests (readDatabase file))),
                        userInfo = userInfo', imageUrl = imageUrl',
                        status = ''Submitted'', createdAt = now1, updatedAt = now2\<rparr>;
          db = db\<lparr>requests := requests db @ [newRequest]\<rparr>
      in (Success, db))"

text \<open>PUT /api/requests/:id/status.\<close>

definition updateRequestStatus ::
  "database \<Rightarrow> int option \<Rightarrow> string \<Rightarrow> timestamp \<Rightarrow> response \<times> database" where
  "updateRequestStatus file id' status' now =
     (let db = readDatabase file
      in case findIndex (\<lambda>r. strict_eq (Some (request.id r)) id') (requests db) of
           None \<Rightarrow> (NotFound, file)
         | Some requestIndex \<Rightarrow>
             (let db = db\<lparr>requests := (requests db)[requestIndex :=
                          (requests db ! requestIndex)\<lparr>request.status := status'\<rparr>]\<rparr>;
                  db = db\<lparr>requests := (requests db)[requestIndex :=
                          (requests db ! requestIndex)\<lparr>updatedAt := now\<rparr>]\<rparr>
              in (Success, db)))"

text \<open>DELETE /api/requests/:id. The assignments are filtered in the object read, before
  the request is looked up; the object is written only when the request was found.\<close>

definition deleteRequest :: "database \<Rightarrow> int option \<Rightarrow> response \<times> database" where
  "deleteRequest file id' =
     (let db = readDatabase file;
          db = db\<lparr>assignments := filter (\<lambda>a. \<not> strict_eq (requestId a) id') (assignments db)\<rparr>
      in case findIndex (\<lambda>r. strict_eq (Some (request.id r)) id') (requests db) of
           None \<Rightarrow> (NotFound, file)
         | Some requestIndex \<Rightarrow>
             (Success, db\<lparr>requests := splice1 requestIndex (requests db)\<rparr>))"

subsection \<open>Contacts\<close>

definition createContact ::
  "database \<Rightarrow> string \<Rightarrow> string \<Rightarrow> string \<Rightarrow> string \<Rightarrow> timestamp \<Rightarrow> response \<times> database" where
  "createContact file name' phone' email' role' now =
     (let db = readDatabase file;
          newContact = \<lparr>contact.id = getNextId (map contact.id (contacts (readDatabase file))),
                        name = name', phone = phone', email = email', role = role',
                        createdAt = now\<rparr>;
          db = db\<lparr>contacts := contacts db @ [newContact]\<rparr>
      in (Success, db))"

definition updateContact ::
  "database \<Rightarrow> int option \<Rightarrow> string \<Rightarrow> string \<Rightarrow> string \<Rightarrow> string \<Rightarrow> response \<times> database" where
  "updateContact file id' name' phone' email' role' =
     (let db = readDatabase file
      in case findIndex (\<lambda>c. strict_eq (Some (contact.id c)) id') (contacts db) of
           None \<Rightarrow> (NotFound, file)
         | Some contactIndex \<Rightarrow>
             (Success, db\<lparr>contacts := (contacts db)[contactIndex :=
                (contacts db ! contactIndex)\<lparr>contact.name := name', contact.phone := phone',
                   contact.email := email', contact.role := role'\<rparr>]\<rparr>))"

definition deleteContact :: "database \<Rightarrow> int option \<Rightarrow> response \<times> database" where
  "deleteContact file id' =
     (let db = readDatabase file;
          db = db\<lparr>assignments := filter (\<lambda>a. \<not> strict_eq (contactId a) id') (assignments db)\<rparr>
      in case findIndex (\<lambda>c. strict_eq (Some (contact.id c)) id') (contacts db) of
           None \<Rightarrow> (NotFound, file)
         | Some contactIndex \<Rightarrow>
             (Success, db\<lparr>contacts := splice1 contactIndex (contacts db)\<rparr>))"

subsection \<open>Users\<close>

definition createUser ::
  "database \<Rightarrow> string \<Rightarrow> string \<Rightarrow> string \<Rightarrow> string \<Rightarrow> timestamp \<Rightarrow> response \<times> database" where
  "createUser file username' email' role' status' now =
     (let db = readDatabase file;
          newUser = \<lparr>user.id = getNextId (map user.id (users (readDatabase file))),
                     username = username', email = email', role = role', status = status',
                     createdAt = now\<rparr>;
          db = db\<lparr>users := users db @ [newUser]\<rparr>
      in (Success, db))"

definition updateUser ::
  "database \<Rightarrow> int option \<Rightarrow> string \<Rightarrow> string \<Rightarrow> string \<Rightarrow> string \<Rightarrow> response \<times> database" where
  "updateUser file id' username' email' role' status' =
     (let db = readDatabase file
      in case findIndex (\<lambda>u. strict_eq (Some (user.id u)) id') (users db) of
           None \<Rightarrow> (NotFound, file)
         | Some userIndex \<Rightarrow>
             (Success, db\<lparr>users := (users db)[userIndex :=
                (users db ! userIndex)\<lparr>user.username := username', user.email := email',
                   user.role := role', user.status := status'\<rparr>]\<rparr>))"

definition deleteUser :: "database \<Rightarrow> int option \<Rightarrow> response \<times> database" where
  "deleteUser file id' =
     (let db = readDatabase file;
          db = db\<lparr>assignments := filter (\<lambda>a. \<not> strict_eq (userId a) id') (assignments db)\<rparr>
      in case findIndex (\<lambda>u. strict_eq (Some (user.id u)) id') (users db) of
           None \<Rightarrow> (NotFound, file)
         | Some userIndex \<Rightarrow>
             (Success, db\<lparr>users := splice1 userIndex (users db)\<rparr>))"

subsection \<open>Admins\<close>

definition createAdmin ::
  "database \<Rightarrow> string \<Rightarrow> string \<Rightarrow> string \<Rightarrow> string \<Rightarrow> string \<Rightarrow> string \<Rightarrow> timestamp
     \<Rightarrow> response \<times> database" where
  "createAdmin file name' username' email' phone' level' status' now =
     (let db = readDatabase file;
          newAdmin = \<lparr>admin.id = getNextId (map admin.id (admins (readDatabase file))),
                      name = name', username = username', email = email', phone = phone',
                      level = level', status = status', createdAt = now\<rparr>;
          db = db\<lparr>admins := admins db @ [newAdmin]\<rparr>
      in (Success, db))"

definition updateAdmin ::
  "database \<Rightarrow> int option \<Rightarrow> string \<Rightarrow> string \<Rightarrow> string \<Rightarrow> string \<Rightarrow> string \<Rightarrow> string
     \<Rightarrow> response \<times> database" where
  "updateAdmin file id' name' username' email' phone' level' status' =
     (let db = readDatabase file
      in case findIndex (\<lambda>a. strict_eq (Some (admin.id a)) id') (admins db) of
           None \<Rightarrow> (NotFound, file)
         | Some adminIndex \<Rightarrow>
             (Success, db\<lparr>admins := (admins db)[adminIndex :=
                (admins db ! adminIndex)\<lparr>admin.name := name', admin.username := username',
                   admin.email := email', admin.phone := phone', admin.level := level',
                   admin.status := status'\<rparr>]\<rparr>))"

definition deleteAdmin :: "database \<Rightarrow> int option \<Rightarrow> response \<times> database" where
  "deleteAdmin file id' =
     (let db = readDatabase file
      in case findIndex (\<lambda>a. strict_eq (Some (admin.id a)) id') (admins db) of
           None \<Rightarrow> (NotFound, file)
         | Some adminIndex \<Rightarrow>
             (Success, db\<lparr>admins := splice1 adminIndex (admins db)\<rparr>))"

subsection \<open>Assignments\<close>

text \<open>POST /api/assignments. The three ids are what \<^verbatim>\<open>parseInt\<close> yields for the
  fields of the body; a NaN among them is in the document as null. \<open>now1\<close> is the clock reading for the \<^verbatim>\<open>createdAt\<close> of
  a new assignment, \<open>now2\<close> the one for the request's \<^verbatim>\<open>updatedAt\<close>. There is no 404
  branch: the handler always writes.\<close>

definition upsertAssignment ::
  "database \<Rightarrow> int option \<Rightarrow> int option \<Rightarrow> int option \<Rightarrow> string \<Rightarrow> timestamp \<Rightarrow> timestamp
     \<Rightarrow> response \<times> database" where
  "upsertAssignment file requestId' contactId' userId' status' now1 now2 =
     (let db = readDatabase file;
          db = (case findIndex (\<lambda>a. strict_eq (requestId a) requestId') (assignments db) of
                  Some existingAssignmentIndex \<Rightarrow>
                    db\<lparr>assignments := (assignments db)[existingAssignmentIndex :=
                         (assignments db ! existingAssignmentIndex)
                           \<lparr>contactId := contactId', userId := userId',
                            assignment.status := status'\<rparr>]\<rparr>
                | None \<Rightarrow>
                    (let newAssignment =
                       \<lparr>assignment.id =
                          getNextId (map assignment.id (assignments (readDatabase file))),
                        requestId = requestId', contactId = contactId', userId = userId',
                        status = status', createdAt = now1\<rparr>
                     in db\<lparr>assignments := assignments db @ [newAssignment]\<rparr>));
          db = (case findIndex (\<lambda>r. strict_eq (Some (request.id r)) requestId') (requests db) of
                  None \<Rightarrow> db
                | Some requestIndex \<Rightarrow>
                    (let db = db\<lparr>requests := (requests db)[requestIndex :=
                                 (requests db ! requestIndex)
                                   \<lparr>request.status := ''In Progress''\<rparr>]\<rparr>
                     in db\<lparr>requests := (requests db)[requestIndex :=
                             (requests db ! requestIndex)\<lparr>updatedAt := now2\<rparr>]\<rparr>))
      in (Success, db))"

subsection \<open>Sequences of operations\<close>

datatype op =
    CreateRequest jsval jsval timestamp timestamp
  | UpdateRequestStatus "int option" string timestamp
  | DeleteRequest "int option"
  | CreateContact string string string string timestamp
  | UpdateContact "int option" string string string string
  | DeleteContact "int option"
  | CreateUser string string string string timestamp
  | UpdateUser "int option" string string string string
  | DeleteUser "int option"
  | CreateAdmin string string string string string string timestamp
  | UpdateAdmin "int option" string string string string string string
  | DeleteAdmin "int option"
  | UpsertAssignment "int option" "int option" "int option" string timestamp timestamp

fun step :: "database \<Rightarrow> op \<Rightarrow> response \<times> database" where
  "step d (CreateRequest ui img t1 t2) = createRequest d ui img t1 t2"
| "step d (UpdateRequestStatus i st t) = updateRequestStatus d i st t"
| "step d (DeleteRequest i) = deleteRequest d i"
| "step d (CreateContact n p e r t) = createContact d n p e r t"
| "step d (UpdateContact i n p e r) = updateContact d i n p e r"
| "step d (DeleteContact i) = deleteContact d i"
| "step d (CreateUser un e r st t) = createUser d un e r st t"
| "step d (UpdateUser i un e r st) = updateUser d i un e r st"
| "step d (DeleteUser i) = deleteUser d i"
| "step d (CreateAdmin n un e p l st t) = createAdmin d n un e p l st t"
| "step d (UpdateAdmin i n un e p l st) = updateAdmin d i n un e p l st"
| "step d (DeleteAdmin i) = deleteAdmin d i"
| "step d (UpsertAssignment r c u st t1 t2) = upsertAssignment d r c u st t1 t2"

text \<open>The handlers run one after the other, each on the document the previous one
  left. The GET handlers write nothing (they sort and join the object they have read) and
  are not among the operations.\<close>

fun run :: "database \<Rightarrow> op list \<Rightarrow> database" where
  "run d [] = d"
| "run d (x # xs) = run (snd (step d x)) xs"

subsection \<open>Invariants of the document\<close>



text \<open>No two assignments have the same number as \<^verbatim>\<open>requestId\<close>.\<close>

definition one_per_request :: "database \<Rightarrow> bool" where
  "one_per_request d \<longleftrightarrow>
     distinct (filter (\<lambda>x. x \<noteq> None) (map requestId (assignments d)))"

subsection \<open>Example documents\<close>

text \<open>The seed document with every clock reading at 0, the document after one request
  has been submitted at instant 10, and the document after that request has been
  assigned within the same millisecond. They are the concrete inputs of the instances
  below.\<close>

definition seed :: database where
  "seed = initialData (\<lambda>k. 0)"

definition one_request :: database where
  "one_request = snd (createRequest seed (Str ''Jane, Toyota, Rabat'') Null 10 10)"

definition one_assignment :: database where
  "one_assignment =
     snd (upsertAssignment one_request (Some 1) (Some 1) (Some 1) ''assigned'' 10 10)"

text \<open>The seed document after an assignment has been posted for request 999, contact
  888 and user 777, none of which exists.\<close>

definition dangling :: database where
  "dangling = snd (upsertAssignment seed (Some 999) (Some 888) (Some 777) ''assigned'' 5 5)"

text \<open>The seed document after two posts of an assignment whose \<^verbatim>\<open>requestId\<close> is
  missing from the body.\<close>

definition unreadable_once :: database where
  "unreadable_once = snd (upsertAssignment seed None (Some 1) (Some 1) ''assigned'' 5 5)"

definition unreadable_twice :: database where
  "unreadable_twice =
     snd (upsertAssignment unreadable_once None (Some 2) (Some 3) ''completed'' 6 6)"

text \<open>A document with two assignments for request 1.\<close>

definition two_for_one :: database where
  "two_for_one = one_assignment\<lparr>assignments :=
     [\<lparr>assignment.id = 1, requestId = Some 1, contactId = Some 1, userId = Some 1,
       status = ''assigned'', createdAt = 10\<rparr>,
      \<lparr>assignment.id = 2, requestId = Some 1, contactId = Some 2, userId = Some 2,
       status = ''assigned'', createdAt = 11\<rparr>]\<rparr>"


section \<open>The cleaning script clean-database.js\<close>

text \<open>\<^verbatim>\<open>cleanRequests\<close> works on the records of the \<^verbatim>\<open>requests\<close> array as they
  are in the file, whatever further fields they carry: the model takes any extension
  of the \<open>request\<close> record. The key of a record is the JavaScript string
  \<^verbatim>\<open>req.userInfo + '|' + req.imageUrl\<close>, in which a null field reads \<^verbatim>\<open>null\<close>
  and a missing field reads \<^verbatim>\<open>undefined\<close>; \<open>toString\<close> is that reading. The test
  \<^verbatim>\<open>req.imageUrl == null\<close> holds of null and of a missing field.\<close>

definition PLACEHOLDER :: string where
  "PLACEHOLDER = ''/uploads/placeholder.png''"

fun toString :: "jsval \<Rightarrow> string" where
  "toString Undefined = ''undefined''"
| "toString Null = ''null''"
| "toString (Str s) = s"

definition key :: "'a request_scheme \<Rightarrow> string" where
  "key req = toString (userInfo req) @ ''|'' @ toString (imageUrl req)"

text \<open>The \<^verbatim>\<open>filter\<close> callback with its set \<^verbatim>\<open>seen\<close>.\<close>

fun filter_seen :: "string set \<Rightarrow> 'a request_scheme list \<Rightarrow> 'a request_scheme list" where
  "filter_seen seen [] = []"
| "filter_seen seen (req # reqs) =
     (if key req \<in> seen then filter_seen seen reqs
      else req # filter_seen (insert (key req) seen) reqs)"

text \<open>The \<^verbatim>\<open>map\<close> callback with its counter \<^verbatim>\<open>nextId\<close>.\<close>

fun renumber :: "int \<Rightarrow> 'a request_scheme list \<Rightarrow> 'a request_scheme list" where
  "renumber nextId [] = []"
| "renumber nextId (req # reqs) =
     req\<lparr>request.id := nextId,
         imageUrl := (case imageUrl req of Undefined \<Rightarrow> Str PLACEHOLDER
                       | Null \<Rightarrow> Str PLACEHOLDER | Str u \<Rightarrow> Str u)\<rparr>
       # renumber (nextId + 1) reqs"

definition cleanRequests :: "'a request_scheme list \<Rightarrow> 'a request_scheme list" where
  "cleanRequests requests' = renumber 1 (filter_seen {} requests')"

text \<open>Three records of a file to clean, from the same requester: one that an earlier
  run of the script has given the placeholder, a later one submitted without a photo
  (\<^verbatim>\<open>imageUrl\<close> null), and one whose \<^verbatim>\<open>imageUrl\<close> is missing.\<close>

definition placeholder_photo :: request where
  "placeholder_photo = \<lparr>request.id = 1, userInfo = Str ''Jane, Toyota, Rabat'',
                imageUrl = Str ''/uploads/placeholder.png'',
                status = ''Submitted'', createdAt = 10, updatedAt = 10\<rparr>"

definition no_photo :: request where
  "no_photo = \<lparr>request.id = 2, userInfo = Str ''Jane, Toyota, Rabat'', imageUrl = Null,
                status = ''Submitted'', createdAt = 20, updatedAt = 20\<rparr>"

definition missing_photo :: request where
  "missing_photo = \<lparr>request.id = 3, userInfo = Str ''Jane, Toyota, Rabat'',
                imageUrl = Undefined, status = ''Submitted'', createdAt = 30,
                updatedAt = 30\<rparr>"

section \<open>Properties of the array primitives and of the id allocation\<close>

declare bits.simps [simp del]

lemma strict_eq_simps [simp]:
  "strict_eq (Some x) b \<longleftrightarrow> b = Some x"
  "strict_eq a (Some y) \<longleftrightarrow> a = Some y"
  "\<not> strict_eq a None"
  "\<not> strict_eq None b"
  by (auto simp: strict_eq_def)

lemma findIndex_None_iff: "findIndex P xs = None \<longleftrightarrow> (\<forall>x\<in>set xs. \<not> P x)"
  by (induction xs) auto

lemma findIndex_SomeD:
  "findIndex P xs = Some i \<Longrightarrow> i < length xs \<and> P (xs ! i) \<and> (\<forall>j<i. \<not> P (xs ! j))"
proof (induction xs arbitrary: i)
  case Nil
  then show ?case by simp
next
  case (Cons x xs)
  show ?case
  proof (cases "P x")
    case True
    with Cons.prems show ?thesis by simp
  next
    case False
    with Cons.prems obtain k where k: "findIndex P xs = Some k" "i = Suc k"
      by auto
    from Cons.IH [OF k(1)] False k(2) show ?thesis
      by (auto simp: less_Suc_eq_0_disj)
  qed
qed

lemma findIndex_Some_iff_ex: "(\<exists>k. findIndex P xs = Some k) \<longleftrightarrow> (\<exists>x\<in>set xs. P x)"
  using findIndex_None_iff [of P xs] by (cases "findIndex P xs") auto

lemma findIndex_cong_map:
  "map f xs = map f ys \<Longrightarrow> findIndex (\<lambda>x. P (f x)) xs = findIndex (\<lambda>x. P (f x)) ys"
proof (induction xs arbitrary: ys)
  case Nil
  then show ?case by simp
next
  case (Cons x xs)
  then obtain y ys' where ys: "ys = y # ys'" "f x = f y" "map f xs = map f ys'"
    by (cases ys) auto
  from Cons.IH [OF ys(3)] ys(1,2) show ?case by simp
qed

lemma bits_less: "n < 2 ^ k \<Longrightarrow> bits n \<le> k"
proof (induction k arbitrary: n)
  case 0
  then show ?case by (simp add: bits.simps)
next
  case (Suc k)
  from Suc.prems have "n div 2 < 2 ^ k" by simp
  from Suc.IH [OF this] show ?case by (subst bits.simps) simp
qed

lemma bits_power: "bits (2 ^ k) = Suc k"
proof (induction k)
  case 0
  show ?case by (simp add: bits.simps [of "Suc 0"] bits.simps [of 0])
next
  case (Suc k)
  then show ?case by (subst bits.simps) simp
qed

lemma toDouble_exact:
  assumes "\<bar>n\<bar> \<le> 2 ^ 53"
  shows "toDouble n = n"
proof (cases "\<bar>n\<bar> < 2 ^ 53")
  case True
  then have "nat \<bar>n\<bar> < 2 ^ 53" by (simp add: nat_less_iff)
  then have "bits (nat \<bar>n\<bar>) \<le> 53" by (rule bits_less)
  then show ?thesis by (simp add: toDouble_def)
next
  case False
  with assms have n: "\<bar>n\<bar> = 2 ^ 53" by simp
  then have "nat \<bar>n\<bar> = 2 ^ 53" by (simp add: nat_eq_iff)
  then have "bits (nat \<bar>n\<bar>) = Suc 53" by (simp only: bits_power)
  then have b: "bits (nat \<bar>n\<bar>) = 54" by simp
  from n have "even n" by (metis even_abs_add_iff even_add even_numeral even_power zero_less_numeral)
  then have "n mod 2 = 0" "n div 2 * 2 = n" by simp_all
  with b show ?thesis by (simp add: toDouble_def Let_def)
qed







section \<open>The effect of the handlers on the collections\<close>

lemma map_update_same:
  "i < length xs \<Longrightarrow> f y = f (xs ! i) \<Longrightarrow> map f (xs[i := y]) = map f xs"
  by (simp add: map_update list_update_same_conv)




















lemma upsertAssignment_assignments:
  "assignments (snd (upsertAssignment d rq c u st t1 t2)) =
     (case findIndex (\<lambda>a. strict_eq (requestId a) rq) (assignments d) of
        Some k \<Rightarrow> (assignments d)[k := (assignments d ! k)
                     \<lparr>contactId := c, userId := u, assignment.status := st\<rparr>]
      | None \<Rightarrow> assignments d @
          [\<lparr>assignment.id = getNextId (map assignment.id (assignments d)),
            requestId = rq, contactId = c, userId = u, status = st, createdAt = t1\<rparr>])"
  by (simp add: upsertAssignment_def readDatabase_def Let_def split: option.splits)

lemma upsertAssignment_requests:
  "requests (snd (upsertAssignment d rq c u st t1 t2)) =
     (case findIndex (\<lambda>q. strict_eq (Some (request.id q)) rq) (requests d) of
        Some k \<Rightarrow> (requests d)[k := (requests d ! k)
                     \<lparr>request.status := ''In Progress'', updatedAt := t2\<rparr>]
      | None \<Rightarrow> requests d)"
proof (cases "findIndex (\<lambda>q. strict_eq (Some (request.id q)) rq) (requests d)")
  case None
  then show ?thesis
    by (simp add: upsertAssignment_def readDatabase_def Let_def split: option.splits)
next
  case (Some k)
  from findIndex_SomeD [OF Some] have "k < length (requests d)" by simp
  with Some show ?thesis
    by (simp add: upsertAssignment_def readDatabase_def Let_def split: option.splits)
qed

lemma upsertAssignment_others:
  "contacts (snd (upsertAssignment d rq c u st t1 t2)) = contacts d"
  "users (snd (upsertAssignment d rq c u st t1 t2)) = users d"
  "admins (snd (upsertAssignment d rq c u st t1 t2)) = admins d"
  by (simp_all add: upsertAssignment_def readDatabase_def Let_def split: option.splits)

lemma upsertAssignment_more:
  "database.more (snd (upsertAssignment d rq c u st t1 t2)) = database.more d"
  by (simp add: upsertAssignment_def readDatabase_def Let_def split: option.splits)

lemma upsertAssignment_fst: "fst (upsertAssignment d rq c u st t1 t2) = Success"
  by (simp add: upsertAssignment_def Let_def)

lemma upsertAssignment_found:
  assumes "findIndex (\<lambda>a. strict_eq (requestId a) rq) (assignments d) = Some k"
  shows "map requestId (assignments (snd (upsertAssignment d rq c u st t1 t2)))
      = map requestId (assignments d)"
    and "map assignment.id (assignments (snd (upsertAssignment d rq c u st t1 t2)))
      = map assignment.id (assignments d)"
  using assms findIndex_SomeD [OF assms]
  by (simp_all add: upsertAssignment_assignments map_update_same)

lemma upsertAssignment_map_request_ids:
  "map request.id (requests (snd (upsertAssignment d rq c u st t1 t2))) =
     map request.id (requests d)"
proof (cases "findIndex (\<lambda>q. strict_eq (Some (request.id q)) rq) (requests d)")
  case None
  then show ?thesis by (simp add: upsertAssignment_requests)
next
  case (Some k)
  from findIndex_SomeD [OF Some] have "k < length (requests d)" by simp
  with Some show ?thesis
    by (simp add: upsertAssignment_requests map_update_same)
qed





lemma distinct_filter_map_filter:
  "distinct (filter P (map f xs)) \<Longrightarrow> distinct (filter P (map f (filter Q xs)))"
proof (induction xs)
  case Nil
  then show ?case by simp
next
  case (Cons a xs)
  then have IH: "distinct (filter P (map f (filter Q xs)))" by (simp split: if_splits)
  have sub: "set (filter P (map f (filter Q xs))) \<subseteq> set (filter P (map f xs))" by auto
  show ?case
  proof (cases "Q a \<and> P (f a)")
    case True
    with Cons.prems have "f a \<notin> set (filter P (map f xs))" by simp
    with sub have "f a \<notin> set (filter P (map f (filter Q xs)))" by blast
    with True IH show ?thesis by simp
  next
    case False
    with IH show ?thesis by auto
  qed
qed


lemma distinct_known_filter_single:
  "distinct (filter (\<lambda>x. x \<noteq> None) (map f xs)) \<Longrightarrow> x \<in> set xs \<Longrightarrow> f x = Some v \<Longrightarrow>
     filter (\<lambda>y. f y = Some v) xs = [x]"
proof (induction xs)
  case Nil
  then show ?case by simp
next
  case (Cons a xs)
  show ?case
  proof (cases "f a = Some v")
    case True
    with Cons.prems(1) have "Some v \<notin> set (filter (\<lambda>x. x \<noteq> None) (map f xs))" by simp
    then have no: "\<forall>y\<in>set xs. f y \<noteq> Some v" by force
    with Cons.prems(2,3) have "x = a" by auto
    moreover from no have "filter (\<lambda>y. f y = Some v) xs = []" by (simp add: filter_empty_conv)
    ultimately show ?thesis using True by simp
  next
    case False
    with Cons.prems have "x \<in> set xs" by auto
    moreover from Cons.prems(1) have "distinct (filter (\<lambda>x. x \<noteq> None) (map f xs))"
      by (simp split: if_splits)
    ultimately have "filter (\<lambda>y. f y = Some v) xs = [x]"
      using Cons.IH Cons.prems(3) by blast
    with False show ?thesis by simp
  qed
qed

lemma filter_update_single:
  "k < length xs \<Longrightarrow> filter P xs = [xs ! k] \<Longrightarrow> P y \<Longrightarrow> filter P (xs[k := y]) = [y]"
proof (induction xs arbitrary: k)
  case Nil
  then show ?case by simp
next
  case (Cons x xs)
  show ?case
  proof (cases k)
    case 0
    with Cons.prems(2) have "x \<in> set (filter P (x # xs))" by simp
    then have px: "P x" unfolding set_filter by blast
    with Cons.prems(2) 0 have "filter P xs = []" by simp
    with Cons.prems(3) 0 show ?thesis by simp
  next
    case (Suc j)
    with Cons.prems(1) have j: "j < length xs" by simp
    have "xs ! j \<in> set (filter P (x # xs))"
      using Cons.prems(2) Suc by simp
    then have pj: "P (xs ! j)" unfolding set_filter by blast
    have npx: "\<not> P x"
    proof
      assume "P x"
      with Cons.prems(2) Suc have "filter P xs = []" by simp
      with j pj show False by (simp add: filter_empty_conv)
    qed
    with Cons.prems(2) Suc have "filter P xs = [xs ! j]" by simp
    from Cons.IH [OF j this Cons.prems(3)] npx Suc show ?thesis by simp
  qed
qed

lemma filter_single_index:
  assumes "filter P xs = [a]" and "findIndex P xs = Some k"
  shows "xs ! k = a"
proof -
  from findIndex_SomeD [OF assms(2)] have "k < length xs" "P (xs ! k)" by simp_all
  then have "xs ! k \<in> set (filter P xs)" by simp
  with assms(1) show ?thesis by simp
qed

lemma step_assignments_cases:
  "(\<exists>rq c u st t1 t2. x = UpsertAssignment rq c u st t1 t2) \<or>
   (\<exists>P. assignments (snd (step d x)) = filter P (assignments d))"
proof (cases x)
  case (DeleteRequest i)
  then show ?thesis
    by (auto simp add: deleteRequest_def readDatabase_def Let_def split: option.splits
        intro: exI [of _ "\<lambda>_. True"])
next
  case (DeleteContact i)
  then show ?thesis
    by (auto simp add: deleteContact_def readDatabase_def Let_def split: option.splits
        intro: exI [of _ "\<lambda>_. True"])
next
  case (DeleteUser i)
  then show ?thesis
    by (auto simp add: deleteUser_def readDatabase_def Let_def split: option.splits
        intro: exI [of _ "\<lambda>_. True"])
qed (auto simp add: createRequest_def updateRequestStatus_def createContact_def
      updateContact_def createUser_def updateUser_def createAdmin_def updateAdmin_def
      deleteAdmin_def readDatabase_def Let_def split: option.splits
      intro: exI [of _ "\<lambda>_. True"])

lemma upsertAssignment_one_per_request:
  assumes "one_per_request d"
  shows "one_per_request (snd (upsertAssignment d rq c u st t1 t2))"
proof (cases "findIndex (\<lambda>a. strict_eq (requestId a) rq) (assignments d)")
  case None
  then have no: "\<forall>a\<in>set (assignments d). \<not> strict_eq (requestId a) rq"
    by (simp add: findIndex_None_iff)
  show ?thesis
  proof (cases rq)
    case rqNone: None
    with None assms show ?thesis
      by (simp add: one_per_request_def upsertAssignment_assignments)
  next
    case (Some r)
    with no have "Some r \<notin> requestId ` set (assignments d)" by auto
    with None Some assms show ?thesis
      by (simp add: one_per_request_def upsertAssignment_assignments)
  qed
next
  case (Some k)
  from upsertAssignment_found(1) [OF Some] assms show ?thesis
    by (simp add: one_per_request_def)
qed

lemma step_one_per_request:
  assumes "one_per_request d"
  shows "one_per_request (snd (step d x))"
proof -
  from step_assignments_cases [of x d]
  consider rq c u st t1 t2 where "x = UpsertAssignment rq c u st t1 t2"
    | P where "assignments (snd (step d x)) = filter P (assignments d)"
    by blast
  then show ?thesis
  proof cases
    case 1
    with upsertAssignment_one_per_request [OF assms] show ?thesis by simp
  next
    case 2
    from assms have "distinct (filter (\<lambda>x. x \<noteq> None)
        (map requestId (filter P (assignments d))))"
      unfolding one_per_request_def by (rule distinct_filter_map_filter)
    then show ?thesis unfolding one_per_request_def 2 .
  qed
qed

lemma run_one_per_request: "one_per_request d \<Longrightarrow> one_per_request (run d xs)"
  by (induction xs arbitrary: d) (simp_all add: step_one_per_request)

lemma initialData_one_per_request: "one_per_request (initialData clk)"
  by (simp add: one_per_request_def initialData_def)

text \<open>The definitions that evaluate the example documents.\<close>

lemmas eval_defs = seed_def one_request_def one_assignment_def dangling_def
  unreadable_once_def unreadable_twice_def initialData_def
  readDatabase_def getNextId_def toDouble_exact createRequest_def upsertAssignment_def Let_def

lemma seed_eval:
  "assignments seed = []"
  "map request.id (requests seed) = []"
  "map contact.id (contacts seed) = [1, 2, 3]"
  "map user.id (users seed) = [1, 2, 3]"
  by (simp_all add: eval_defs)

lemma one_request_requests:
  "requests one_request = [\<lparr>request.id = 1, userInfo = Str ''Jane, Toyota, Rabat'',
      imageUrl = Null, status = ''Submitted'', createdAt = 10, updatedAt = 10\<rparr>]"
  by (simp add: eval_defs)

lemma one_assignment_requests:
  "requests one_assignment = [\<lparr>request.id = 1, userInfo = Str ''Jane, Toyota, Rabat'',
      imageUrl = Null, status = ''In Progress'', createdAt = 10, updatedAt = 10\<rparr>]"
  by (simp add: eval_defs)

lemma one_assignment_assignments:
  "assignments one_assignment = [\<lparr>assignment.id = 1, requestId = Some 1,
      contactId = Some 1, userId = Some 1, status = ''assigned'', createdAt = 10\<rparr>]"
  by (simp add: eval_defs)

lemma one_assignment_eval:
  "map request.id (requests one_assignment) = [1]"
  "map contact.id (contacts one_assignment) = [1, 2, 3]"
  "map user.id (users one_assignment) = [1, 2, 3]"
  "map requestId (assignments one_assignment) = [Some 1]"
  "map contactId (assignments one_assignment) = [Some 1]"
  "map userId (assignments one_assignment) = [Some 1]"
  by (simp_all add: eval_defs)

lemma run_one_assignment:
  "run (initialData (\<lambda>k. 0)) [CreateRequest (Str ''Jane, Toyota, Rabat'') Null 10 10,
      UpsertAssignment (Some 1) (Some 1) (Some 1) ''assigned'' 10 10] = one_assignment"
  by (simp add: one_assignment_def one_request_def seed_def)

lemma dangling_assignments:
  "assignments dangling = [\<lparr>assignment.id = 1, requestId = Some 999, contactId = Some 888,
      userId = Some 777, status = ''assigned'', createdAt = 5\<rparr>]"
  by (simp add: eval_defs)

lemma dangling_eval:
  "map requestId (assignments dangling) = [Some 999]"
  "map contactId (assignments dangling) = [Some 888]"
  "map request.id (requests dangling) = []"
  "map contact.id (contacts dangling) = [1, 2, 3]"
  by (simp_all add: eval_defs)

lemma unreadable_once_assignments:
  "assignments unreadable_once = [\<lparr>assignment.id = 1, requestId = None, contactId = Some 1,
      userId = Some 1, status = ''assigned'', createdAt = 5\<rparr>]"
  by (simp add: eval_defs)

lemma unreadable_twice_assignments:
  "assignments unreadable_twice =
     [\<lparr>assignment.id = 1, requestId = None, contactId = Some 1, userId = Some 1,
       status = ''assigned'', createdAt = 5\<rparr>,
      \<lparr>assignment.id = 2, requestId = None, contactId = Some 2, userId = Some 3,
       status = ''completed'', createdAt = 6\<rparr>]"
  unfolding unreadable_twice_def
  by (simp add: upsertAssignment_assignments unreadable_once_assignments getNextId_def
      toDouble_exact)

lemma two_for_one_upsert:
  "assignments (snd (upsertAssignment two_for_one (Some 1) (Some 2) (Some 3)
      ''completed'' 20 20)) =
     [\<lparr>assignment.id = 1, requestId = Some 1, contactId = Some 2, userId = Some 3,
       status = ''completed'', createdAt = 10\<rparr>,
      \<lparr>assignment.id = 2, requestId = Some 1, contactId = Some 2, userId = Some 2,
       status = ''assigned'', createdAt = 11\<rparr>]"
  by (simp add: upsertAssignment_assignments two_for_one_def)

lemma upsertAssignment_single:
  assumes one: "filter (\<lambda>x. requestId x = Some r) (assignments d) = [a]"
  shows "filter (\<lambda>x. requestId x = Some r)
      (assignments (snd (upsertAssignment d (Some r) c u st t1 t2)))
     = [a\<lparr>contactId := c, userId := u, assignment.status := st\<rparr>]"
proof -
  let ?xs = "assignments d"
  let ?a' = "a\<lparr>contactId := c, userId := u, assignment.status := st\<rparr>"
  from one have "a \<in> set (filter (\<lambda>x. requestId x = Some r) ?xs)" by simp
  then have a: "a \<in> set ?xs" "requestId a = Some r" by simp_all
  then have "\<exists>x\<in>set ?xs. strict_eq (requestId x) (Some r)" by auto
  then obtain k where k: "findIndex (\<lambda>x. strict_eq (requestId x) (Some r)) ?xs = Some k"
    using findIndex_Some_iff_ex [of "\<lambda>x. strict_eq (requestId x) (Some r)" ?xs] by blast
  then have k': "findIndex (\<lambda>x. requestId x = Some r) ?xs = Some k" by simp
  from findIndex_SomeD [OF k'] have kl: "k < length ?xs" by simp
  from filter_single_index [OF one k'] have ak: "?xs ! k = a" .
  from k ak have new: "assignments (snd (upsertAssignment d (Some r) c u st t1 t2))
      = ?xs[k := ?a']"
    by (simp add: upsertAssignment_assignments)
  from one ak have "filter (\<lambda>x. requestId x = Some r) ?xs = [?xs ! k]" by simp
  from filter_update_single [OF kl this, of ?a'] a(2) new show ?thesis by simp
qed

lemma upsertAssignment_twice_assignments:
  assumes "\<exists>a\<in>set (assignments d). requestId a = Some r"
  shows "assignments (snd (upsertAssignment (snd (upsertAssignment d (Some r) c1 u1 s1 t1' t2'))
            (Some r) c u st t1 t2))
       = assignments (snd (upsertAssignment d (Some r) c u st t1 t2))"
proof -
  let ?xs = "assignments d"
  let ?d1 = "snd (upsertAssignment d (Some r) c1 u1 s1 t1' t2')"
  from assms have "\<exists>x\<in>set ?xs. strict_eq (requestId x) (Some r)" by simp
  then obtain k where k: "findIndex (\<lambda>x. strict_eq (requestId x) (Some r)) ?xs = Some k"
    using findIndex_Some_iff_ex [of "\<lambda>x. strict_eq (requestId x) (Some r)" ?xs] by blast
  from findIndex_SomeD [OF k] have kl: "k < length ?xs" by simp
  have "map requestId (assignments ?d1) = map requestId ?xs"
    by (rule upsertAssignment_found(1) [OF k])
  from findIndex_cong_map [OF this, of "\<lambda>v. strict_eq v (Some r)"] k
  have k1: "findIndex (\<lambda>x. strict_eq (requestId x) (Some r)) (assignments ?d1) = Some k"
    by simp
  from k have x1: "assignments ?d1
      = ?xs[k := (?xs ! k)\<lparr>contactId := c1, userId := u1, assignment.status := s1\<rparr>]"
    by (simp add: upsertAssignment_assignments)
  from k1 have "assignments (snd (upsertAssignment ?d1 (Some r) c u st t1 t2))
      = (assignments ?d1)[k := (assignments ?d1 ! k)
           \<lparr>contactId := c, userId := u, assignment.status := st\<rparr>]"
    by (simp add: upsertAssignment_assignments)
  also from kl have "\<dots> = ?xs[k := (?xs ! k)\<lparr>contactId := c, userId := u,
      assignment.status := st\<rparr>]"
    unfolding x1 by simp
  also from k have "\<dots> = assignments (snd (upsertAssignment d (Some r) c u st t1 t2))"
    by (simp add: upsertAssignment_assignments)
  finally show ?thesis .
qed

lemma upsertAssignment_twice_requests:
  "requests (snd (upsertAssignment (snd (upsertAssignment d rq c1 u1 s1 t1' t2'))
            rq c u st t1 t2))
       = requests (snd (upsertAssignment d rq c u st t1 t2))"
proof (cases "findIndex (\<lambda>q. strict_eq (Some (request.id q)) rq) (requests d)")
  case None
  then show ?thesis
    by (simp add: upsertAssignment_requests)
next
  case (Some k)
  let ?ys = "requests d"
  let ?d1 = "snd (upsertAssignment d rq c1 u1 s1 t1' t2')"
  from findIndex_SomeD [OF Some] have kl: "k < length ?ys" by simp
  have "map request.id (requests ?d1) = map request.id ?ys"
    by (rule upsertAssignment_map_request_ids)
  from findIndex_cong_map [OF this, of "\<lambda>v. strict_eq (Some v) rq"] Some
  have k1: "findIndex (\<lambda>q. strict_eq (Some (request.id q)) rq) (requests ?d1) = Some k"
    by simp
  from Some have y1: "requests ?d1
      = ?ys[k := (?ys ! k)\<lparr>request.status := ''In Progress'', updatedAt := t2'\<rparr>]"
    by (simp add: upsertAssignment_requests)
  from k1 have "requests (snd (upsertAssignment ?d1 rq c u st t1 t2))
      = (requests ?d1)[k := (requests ?d1 ! k)
           \<lparr>request.status := ''In Progress'', updatedAt := t2\<rparr>]"
    by (simp add: upsertAssignment_requests [of ?d1])
  also from kl have "\<dots> = ?ys[k := (?ys ! k)\<lparr>request.status := ''In Progress'',
      updatedAt := t2\<rparr>]"
    unfolding y1 by simp
  also from Some have "\<dots> = requests (snd (upsertAssignment d rq c u st t1 t2))"
    by (simp add: upsertAssignment_requests [of d])
  finally show ?thesis .
qed

lemma upsertAssignment_twice:
  assumes "\<exists>a\<in>set (assignments d). requestId a = Some r"
  shows "upsertAssignment (snd (upsertAssignment d (Some r) c1 u1 s1 t1' t2'))
           (Some r) c u st t1 t2
       = upsertAssignment d (Some r) c u st t1 t2"
proof (rule prod_eqI)
  show "fst (upsertAssignment (snd (upsertAssignment d (Some r) c1 u1 s1 t1' t2'))
           (Some r) c u st t1 t2)
      = fst (upsertAssignment d (Some r) c u st t1 t2)"
    by (simp only: upsertAssignment_fst)
  show "snd (upsertAssignment (snd (upsertAssignment d (Some r) c1 u1 s1 t1' t2'))
           (Some r) c u st t1 t2)
      = snd (upsertAssignment d (Some r) c u st t1 t2)"
    by (rule database.equality)
      (simp_all only: upsertAssignment_twice_assignments [OF assms]
        upsertAssignment_twice_requests upsertAssignment_others upsertAssignment_more)
qed















lemma in_map_ex: "v \<in> set (map f xs) \<Longrightarrow> \<exists>x\<in>set xs. f x = v"
  by auto

lemma filter_neq_map_Nil: "map f xs = [v] \<Longrightarrow> filter (\<lambda>x. f x \<noteq> v) xs = []"
  by (cases xs) auto

lemma deleteRequest_cascade:
  "(fst (deleteRequest d (Some i)) = Success \<longleftrightarrow> (\<exists>q\<in>set (requests d). request.id q = i))
     \<and> (fst (deleteRequest d (Some i)) = Success \<longrightarrow>
        assignments (snd (deleteRequest d (Some i)))
          = filter (\<lambda>a. requestId a \<noteq> Some i) (assignments d))"
proof (cases "findIndex (\<lambda>q. strict_eq (Some (request.id q)) (Some i)) (requests d)")
  case None
  then have "\<not> (\<exists>q\<in>set (requests d). request.id q = i)"
    by (simp add: findIndex_None_iff)
  with None show ?thesis
    by (simp add: deleteRequest_def readDatabase_def)
next
  case (Some k)
  then have "\<exists>q\<in>set (requests d). request.id q = i"
    using findIndex_Some_iff_ex [of "\<lambda>q. strict_eq (Some (request.id q)) (Some i)" "requests d"]
    by auto
  with Some show ?thesis
    by (simp add: deleteRequest_def readDatabase_def)
qed

lemma deleteContact_cascade:
  "(fst (deleteContact d (Some i)) = Success \<longleftrightarrow> (\<exists>q\<in>set (contacts d). contact.id q = i))
     \<and> (fst (deleteContact d (Some i)) = Success \<longrightarrow>
        assignments (snd (deleteContact d (Some i)))
          = filter (\<lambda>a. contactId a \<noteq> Some i) (assignments d))"
proof (cases "findIndex (\<lambda>q. strict_eq (Some (contact.id q)) (Some i)) (contacts d)")
  case None
  then have "\<not> (\<exists>q\<in>set (contacts d). contact.id q = i)"
    by (simp add: findIndex_None_iff)
  with None show ?thesis
    by (simp add: deleteContact_def readDatabase_def)
next
  case (Some k)
  then have "\<exists>q\<in>set (contacts d). contact.id q = i"
    using findIndex_Some_iff_ex [of "\<lambda>q. strict_eq (Some (contact.id q)) (Some i)" "contacts d"]
    by auto
  with Some show ?thesis
    by (simp add: deleteContact_def readDatabase_def)
qed

lemma deleteUser_cascade:
  "(fst (deleteUser d (Some i)) = Success \<longleftrightarrow> (\<exists>q\<in>set (users d). user.id q = i))
     \<and> (fst (deleteUser d (Some i)) = Success \<longrightarrow>
        assignments (snd (deleteUser d (Some i)))
          = filter (\<lambda>a. userId a \<noteq> Some i) (assignments d))"
proof (cases "findIndex (\<lambda>q. strict_eq (Some (user.id q)) (Some i)) (users d)")
  case None
  then have "\<not> (\<exists>q\<in>set (users d). user.id q = i)"
    by (simp add: findIndex_None_iff)
  with None show ?thesis
    by (simp add: deleteUser_def readDatabase_def)
next
  case (Some k)
  then have "\<exists>q\<in>set (users d). user.id q = i"
    using findIndex_Some_iff_ex [of "\<lambda>q. strict_eq (Some (user.id q)) (Some i)" "users d"]
    by auto
  with Some show ?thesis
    by (simp add: deleteUser_def readDatabase_def)
qed

lemma filter_seen_keys: "key ` set (filter_seen seen reqs) = key ` set reqs - seen"
  by (induction seen reqs rule: filter_seen.induct) auto

lemma filter_seen_distinct: "distinct (map key (filter_seen seen reqs))"
  by (induction seen reqs rule: filter_seen.induct) (auto simp: filter_seen_keys)

lemma filter_seen_subseq: "subseq (filter_seen seen reqs) reqs"
  by (induction seen reqs rule: filter_seen.induct) auto

lemma renumber_length: "length (renumber n xs) = length xs"
  by (induction xs arbitrary: n) simp_all

lemma renumber_nth:
  "i < length xs \<Longrightarrow> renumber n xs ! i =
     (xs ! i)\<lparr>request.id := n + int i,
       imageUrl := (case imageUrl (xs ! i) of Undefined \<Rightarrow> Str PLACEHOLDER
                     | Null \<Rightarrow> Str PLACEHOLDER | Str u \<Rightarrow> Str u)\<rparr>"
proof (induction xs arbitrary: n i)
  case Nil
  then show ?case by simp
next
  case (Cons x xs)
  show ?case
  proof (cases i)
    case 0
    then show ?thesis by simp
  next
    case (Suc j)
    with Cons.prems have "j < length xs" by simp
    from Cons.IH [OF this, of "n + 1"] Suc show ?thesis by (simp add: add.assoc)
  qed
qed

lemma renumber_ids: "map request.id (renumber n xs) = map (\<lambda>i. n + int i) [0..<length xs]"
  by (rule nth_equalityI) (simp_all add: renumber_length renumber_nth)

text \<open>What the script does achieve: the records kept have pairwise distinct keys and
  are a subsequence of the input; the output has one record for each, with the ids
  1, 2, ... in that order, the placeholder for a null or missing \<^verbatim>\<open>imageUrl\<close>, and
  every other field unchanged.\<close>

lemma cleanRequests_kept:
  "distinct (map key (filter_seen {} reqs))
   \<and> subseq (filter_seen {} reqs) reqs
   \<and> key ` set (filter_seen {} reqs) = key ` set reqs
   \<and> length (cleanRequests reqs) = length (filter_seen {} reqs)
   \<and> map request.id (cleanRequests reqs)
        = map (\<lambda>i. 1 + int i) [0..<length (filter_seen {} reqs)]
   \<and> (\<forall>i<length (filter_seen {} reqs). cleanRequests reqs ! i =
        (filter_seen {} reqs ! i)\<lparr>request.id := 1 + int i,
           imageUrl := (case imageUrl (filter_seen {} reqs ! i) of
                          Undefined \<Rightarrow> Str PLACEHOLDER | Null \<Rightarrow> Str PLACEHOLDER
                        | Str u \<Rightarrow> Str u)\<rparr>)"
proof -
  have "distinct (map key (filter_seen {} reqs))"
    by (rule filter_seen_distinct)
  moreover have "subseq (filter_seen {} reqs) reqs"
    by (rule filter_seen_subseq)
  moreover have "key ` set (filter_seen {} reqs) = key ` set reqs"
    by (simp add: filter_seen_keys)
  moreover have "length (cleanRequests reqs) = length (filter_seen {} reqs)"
    by (simp add: cleanRequests_def renumber_length)
  moreover have "map request.id (cleanRequests reqs)
        = map (\<lambda>i. 1 + int i) [0..<length (filter_seen {} reqs)]"
    by (simp add: cleanRequests_def renumber_ids)
  moreover have "\<forall>i<length (filter_seen {} reqs). cleanRequests reqs ! i =
        (filter_seen {} reqs ! i)\<lparr>request.id := 1 + int i,
           imageUrl := (case imageUrl (filter_seen {} reqs ! i) of
                          Undefined \<Rightarrow> Str PLACEHOLDER | Null \<Rightarrow> Str PLACEHOLDER
                        | Str u \<Rightarrow> Str u)\<rparr>"
    by (simp add: cleanRequests_def renumber_nth)
  ultimately show ?thesis by blast
qed

lemma example_keys:
  "key placeholder_photo = ''Jane, Toyota, Rabat|/uploads/placeholder.png''"
  "key no_photo = ''Jane, Toyota, Rabat|null''"
  "key missing_photo = ''Jane, Toyota, Rabat|undefined''"
  by (simp_all add: key_def placeholder_photo_def no_photo_def missing_photo_def)

lemma filter_seen_example:
  "filter_seen {} [placeholder_photo, no_photo, missing_photo]
     = [placeholder_photo, no_photo, missing_photo]"
  by (simp add: example_keys)

lemma cleanRequests_example:
  "cleanRequests [placeholder_photo, no_photo, missing_photo] =
     [\<lparr>request.id = 1, userInfo = Str ''Jane, Toyota, Rabat'',
       imageUrl = Str ''/uploads/placeholder.png'',
       status = ''Submitted'', createdAt = 10, updatedAt = 10\<rparr>,
      \<lparr>request.id = 2, userInfo = Str ''Jane, Toyota, Rabat'',
       imageUrl = Str ''/uploads/placeholder.png'',
       status = ''Submitted'', createdAt = 20, updatedAt = 20\<rparr>,
      \<lparr>request.id = 3, userInfo = Str ''Jane, Toyota, Rabat'',
       imageUrl = Str ''/uploads/placeholder.png'',
       status = ''Submitted'', createdAt = 30, updatedAt = 30\<rparr>]"
  unfolding cleanRequests_def filter_seen_example
  by (simp add: PLACEHOLDER_def placeholder_photo_def no_photo_def missing_photo_def)

lemma cleanRequests_example_again:
  "cleanRequests (cleanRequests [placeholder_photo, no_photo, missing_photo]) =
     [\<lparr>request.id = 1, userInfo = Str ''Jane, Toyota, Rabat'',
       imageUrl = Str ''/uploads/placeholder.png'',
       status = ''Submitted'', createdAt = 10, updatedAt = 10\<rparr>]"
  unfolding cleanRequests_example
  by (simp add: cleanRequests_def key_def PLACEHOLDER_def)

section \<open>At most one assignment per request\<close>




section \<open>The request of an upsert\<close>

text \<open>
  C2, as stated, fails: the handler stores the clock reading of the call as
  \<^verbatim>\<open>updatedAt\<close>, and a call within the millisecond of the previous write of the
  request reads the same instant. Here the request submitted at instant 10 is assigned
  at instant 10: its status becomes In Progress and its \<^verbatim>\<open>updatedAt\<close> is 10 as
  before, not greater.
\<close>

theorem upsert_updatedAt_counterexample:
  "requests one_request = [\<lparr>request.id = 1, userInfo = Str ''Jane, Toyota, Rabat'',
      imageUrl = Null, status = ''Submitted'', createdAt = 10, updatedAt = 10\<rparr>]
   \<and> requests (snd (upsertAssignment one_request (Some 1) (Some 1) (Some 1) ''assigned'' 10 10))
       = [\<lparr>request.id = 1, userInfo = Str ''Jane, Toyota, Rabat'',
      imageUrl = Null, status = ''In Progress'', createdAt = 10, updatedAt = 10\<rparr>]
   \<and> \<not> updatedAt (requests one_request ! 0)
        < updatedAt (requests (snd (upsertAssignment one_request (Some 1) (Some 1) (Some 1)
            ''assigned'' 10 10)) ! 0)"
  using one_request_requests one_assignment_requests
  by (simp add: one_assignment_def)

text \<open>
  C2, amended. When a request with id \<open>r\<close> is in the document, then after
  \<^verbatim>\<open>upsertAssignment(r, c, u, st)\<close>, whatever \<open>st\<close> is, the first request with id
  \<open>r\<close> has status In Progress and the clock reading of the call as \<^verbatim>\<open>updatedAt\<close>;
  its other fields and the other requests are as before.
\<close>

theorem upsert_request_side_effect:
  "(\<exists>q\<in>set (requests d). request.id q = r) \<longrightarrow>
     (\<exists>k<length (requests d). request.id (requests d ! k) = r
        \<and> (\<forall>j<k. request.id (requests d ! j) \<noteq> r)
        \<and> requests (snd (upsertAssignment d (Some r) c u st t1 t2)) =
            (requests d)[k := (requests d ! k)
               \<lparr>request.status := ''In Progress'', updatedAt := t2\<rparr>])"
proof
  assume "\<exists>q\<in>set (requests d). request.id q = r"
  then have "\<exists>q\<in>set (requests d). strict_eq (Some (request.id q)) (Some r)" by simp
  then obtain k where k: "findIndex (\<lambda>q. strict_eq (Some (request.id q)) (Some r)) (requests d)
      = Some k"
    using findIndex_Some_iff_ex [of "\<lambda>q. strict_eq (Some (request.id q)) (Some r)" "requests d"]
    by blast
  from findIndex_SomeD [OF k]
  have "k < length (requests d)" "request.id (requests d ! k) = r"
    "\<forall>j<k. request.id (requests d ! j) \<noteq> r"
    by simp_all
  moreover from k have "requests (snd (upsertAssignment d (Some r) c u st t1 t2)) =
            (requests d)[k := (requests d ! k)
               \<lparr>request.status := ''In Progress'', updatedAt := t2\<rparr>]"
    by (simp add: upsertAssignment_requests)
  ultimately show "\<exists>k<length (requests d). request.id (requests d ! k) = r
        \<and> (\<forall>j<k. request.id (requests d ! j) \<noteq> r)
        \<and> requests (snd (upsertAssignment d (Some r) c u st t1 t2)) =
            (requests d)[k := (requests d ! k)
               \<lparr>request.status := ''In Progress'', updatedAt := t2\<rparr>]"
    by blast
qed

theorem upsert_request_side_effect_witness:
  "requests one_request = [\<lparr>request.id = 1, userInfo = Str ''Jane, Toyota, Rabat'',
      imageUrl = Null, status = ''Submitted'', createdAt = 10, updatedAt = 10\<rparr>]
   \<and> requests (snd (upsertAssignment one_request (Some 1) (Some 2) (Some 3) ''completed'' 20 25))
       = [\<lparr>request.id = 1, userInfo = Str ''Jane, Toyota, Rabat'',
      imageUrl = Null, status = ''In Progress'', createdAt = 10, updatedAt = 25\<rparr>]"
proof -
  have "\<exists>q\<in>set (requests one_request). request.id q = 1"
    unfolding one_request_requests by simp
  with upsert_request_side_effect [of one_request 1 "Some 2" "Some 3" "''completed''" 20 25]
  obtain k where k: "k < length (requests one_request)"
    "requests (snd (upsertAssignment one_request (Some 1) (Some 2) (Some 3) ''completed'' 20 25)) =
       (requests one_request)[k := (requests one_request ! k)
               \<lparr>request.status := ''In Progress'', updatedAt := 25\<rparr>]"
    by blast
  from k(1) have "k = 0" unfolding one_request_requests by simp
  with k(2) have "requests (snd (upsertAssignment one_request (Some 1) (Some 2) (Some 3)
      ''completed'' 20 25))
       = [\<lparr>request.id = 1, userInfo = Str ''Jane, Toyota, Rabat'',
      imageUrl = Null, status = ''In Progress'', createdAt = 10, updatedAt = 25\<rparr>]"
    unfolding one_request_requests by simp
  with one_request_requests show ?thesis by simp
qed

section \<open>References of a new assignment\<close>

text \<open>
  C3, as stated, fails: on the seed document, which has no request, and no contact or
  user with id 888 or 777, \<^verbatim>\<open>upsertAssignment(999, 888, 777, "assigned")\<close> creates the
  assignment.
\<close>

theorem upsert_dangling_counterexample:
  "assignments (snd (upsertAssignment seed (Some 999) (Some 888) (Some 777) ''assigned'' 5 5))
      = [\<lparr>assignment.id = 1, requestId = Some 999, contactId = Some 888,
      userId = Some 777, status = ''assigned'', createdAt = 5\<rparr>]
   \<and> map request.id (requests seed) = []
   \<and> map contact.id (contacts seed) = [1, 2, 3]
   \<and> map user.id (users seed) = [1, 2, 3]"
  using dangling_assignments seed_eval(2,3,4)
  by (simp add: dangling_def)

text \<open>
  C3, amended. \<^verbatim>\<open>upsertAssignment\<close> checks no reference: when no assignment has the
  \<^verbatim>\<open>requestId\<close> \<open>r\<close>, it succeeds and appends an assignment with the given
  \<^verbatim>\<open>requestId\<close>, \<^verbatim>\<open>contactId\<close> and \<^verbatim>\<open>userId\<close>, whatever the requests, contacts
  and users of the document are, and it creates no request, contact or user. With a
  \<^verbatim>\<open>requestId\<close> that \<^verbatim>\<open>parseInt\<close> cannot read it appends in every document.
\<close>

theorem upsert_no_existence_check:
  "((\<forall>a\<in>set (assignments d). requestId a \<noteq> Some r) \<longrightarrow>
     fst (upsertAssignment d (Some r) c u st t1 t2) = Success
     \<and> assignments (snd (upsertAssignment d (Some r) c u st t1 t2)) = assignments d @
        [\<lparr>assignment.id = getNextId (map assignment.id (assignments d)),
          requestId = Some r, contactId = c, userId = u, status = st, createdAt = t1\<rparr>]
     \<and> contacts (snd (upsertAssignment d (Some r) c u st t1 t2)) = contacts d
     \<and> users (snd (upsertAssignment d (Some r) c u st t1 t2)) = users d
     \<and> map request.id (requests (snd (upsertAssignment d (Some r) c u st t1 t2)))
         = map request.id (requests d))
   \<and> fst (upsertAssignment d None c u st t1 t2) = Success
   \<and> assignments (snd (upsertAssignment d None c u st t1 t2)) = assignments d @
        [\<lparr>assignment.id = getNextId (map assignment.id (assignments d)),
          requestId = None, contactId = c, userId = u, status = st, createdAt = t1\<rparr>]
   \<and> requests (snd (upsertAssignment d None c u st t1 t2)) = requests d"
proof -
  have "fst (upsertAssignment d (Some r) c u st t1 t2) = Success
     \<and> assignments (snd (upsertAssignment d (Some r) c u st t1 t2)) = assignments d @
        [\<lparr>assignment.id = getNextId (map assignment.id (assignments d)),
          requestId = Some r, contactId = c, userId = u, status = st, createdAt = t1\<rparr>]
     \<and> contacts (snd (upsertAssignment d (Some r) c u st t1 t2)) = contacts d
     \<and> users (snd (upsertAssignment d (Some r) c u st t1 t2)) = users d
     \<and> map request.id (requests (snd (upsertAssignment d (Some r) c u st t1 t2)))
         = map request.id (requests d)"
    if "\<forall>a\<in>set (assignments d). requestId a \<noteq> Some r"
  proof -
    from that have "findIndex (\<lambda>a. strict_eq (requestId a) (Some r)) (assignments d) = None"
      by (simp add: findIndex_None_iff)
    then have "assignments (snd (upsertAssignment d (Some r) c u st t1 t2)) = assignments d @
        [\<lparr>assignment.id = getNextId (map assignment.id (assignments d)),
          requestId = Some r, contactId = c, userId = u, status = st, createdAt = t1\<rparr>]"
      by (simp add: upsertAssignment_assignments)
    then show ?thesis
      by (simp only: upsertAssignment_fst upsertAssignment_others
          upsertAssignment_map_request_ids simp_thms)
  qed
  moreover have "findIndex (\<lambda>a. strict_eq (requestId a) None) (assignments d) = None"
    by (simp add: findIndex_None_iff)
  then have "assignments (snd (upsertAssignment d None c u st t1 t2)) = assignments d @
        [\<lparr>assignment.id = getNextId (map assignment.id (assignments d)),
          requestId = None, contactId = c, userId = u, status = st, createdAt = t1\<rparr>]"
    by (simp add: upsertAssignment_assignments)
  moreover have "findIndex (\<lambda>q. strict_eq (Some (request.id q)) None) (requests d) = None"
    by (simp add: findIndex_None_iff)
  then have "requests (snd (upsertAssignment d None c u st t1 t2)) = requests d"
    by (simp add: upsertAssignment_requests)
  moreover have "fst (upsertAssignment d None c u st t1 t2) = Success"
    by (rule upsertAssignment_fst)
  ultimately show ?thesis by blast
qed

theorem upsert_no_existence_check_witness:
  "assignments seed = []
   \<and> map request.id (requests seed) = []
   \<and> map contact.id (contacts seed) = [1, 2, 3]
   \<and> map user.id (users seed) = [1, 2, 3]
   \<and> fst (upsertAssignment seed (Some 999) (Some 888) (Some 777) ''assigned'' 5 5) = Success
   \<and> assignments (snd (upsertAssignment seed (Some 999) (Some 888) (Some 777) ''assigned'' 5 5))
      = [\<lparr>assignment.id = 1, requestId = Some 999, contactId = Some 888,
          userId = Some 777, status = ''assigned'', createdAt = 5\<rparr>]"
proof -
  have "\<forall>a\<in>set (assignments seed). requestId a \<noteq> Some 999"
    by (simp add: seed_eval)
  with upsert_no_existence_check [of seed 999 "Some 888" "Some 777" "''assigned''" 5 5]
  have "fst (upsertAssignment seed (Some 999) (Some 888) (Some 777) ''assigned'' 5 5) = Success"
    "assignments (snd (upsertAssignment seed (Some 999) (Some 888) (Some 777) ''assigned'' 5 5))
      = assignments seed @
        [\<lparr>assignment.id = getNextId (map assignment.id (assignments seed)),
          requestId = Some 999, contactId = Some 888, userId = Some 777, status = ''assigned'',
          createdAt = 5\<rparr>]"
    by blast+
  then show ?thesis
    using seed_eval by (simp add: getNextId_def)
qed

section \<open>Cascade on delete\<close>

text \<open>
  C4. Deleting a request, contact or user succeeds exactly when an entity with that id
  is in its collection, and then the assignments persisted are those whose
  \<^verbatim>\<open>requestId\<close>, \<^verbatim>\<open>contactId\<close> or \<^verbatim>\<open>userId\<close> (respectively) differs from the
  id: no assignment of the document references the deleted entity.
\<close>

theorem delete_cascade:
  "(fst (deleteRequest d (Some i)) = Success \<longleftrightarrow> (\<exists>q\<in>set (requests d). request.id q = i))
   \<and> (fst (deleteRequest d (Some i)) = Success \<longrightarrow>
        assignments (snd (deleteRequest d (Some i)))
          = filter (\<lambda>a. requestId a \<noteq> Some i) (assignments d)
        \<and> (\<forall>a\<in>set (assignments (snd (deleteRequest d (Some i)))). requestId a \<noteq> Some i))
   \<and> (fst (deleteContact d (Some i)) = Success \<longleftrightarrow> (\<exists>q\<in>set (contacts d). contact.id q = i))
   \<and> (fst (deleteContact d (Some i)) = Success \<longrightarrow>
        assignments (snd (deleteContact d (Some i)))
          = filter (\<lambda>a. contactId a \<noteq> Some i) (assignments d)
        \<and> (\<forall>a\<in>set (assignments (snd (deleteContact d (Some i)))). contactId a \<noteq> Some i))
   \<and> (fst (deleteUser d (Some i)) = Success \<longleftrightarrow> (\<exists>q\<in>set (users d). user.id q = i))
   \<and> (fst (deleteUser d (Some i)) = Success \<longrightarrow>
        assignments (snd (deleteUser d (Some i)))
          = filter (\<lambda>a. userId a \<noteq> Some i) (assignments d)
        \<and> (\<forall>a\<in>set (assignments (snd (deleteUser d (Some i)))). userId a \<noteq> Some i))"
proof -
  have "\<forall>a\<in>set (assignments (snd (deleteRequest d (Some i)))). requestId a \<noteq> Some i"
    if "fst (deleteRequest d (Some i)) = Success"
    using that deleteRequest_cascade [of d i] by simp
  moreover have "\<forall>a\<in>set (assignments (snd (deleteContact d (Some i)))). contactId a \<noteq> Some i"
    if "fst (deleteContact d (Some i)) = Success"
    using that deleteContact_cascade [of d i] by simp
  moreover have "\<forall>a\<in>set (assignments (snd (deleteUser d (Some i)))). userId a \<noteq> Some i"
    if "fst (deleteUser d (Some i)) = Success"
    using that deleteUser_cascade [of d i] by simp
  ultimately show ?thesis
    using deleteRequest_cascade [of d i] deleteContact_cascade [of d i]
      deleteUser_cascade [of d i]
    by blast
qed

theorem delete_cascade_witness:
  "fst (deleteRequest one_assignment (Some 1)) = Success
   \<and> assignments one_assignment \<noteq> []
   \<and> assignments (snd (deleteRequest one_assignment (Some 1))) = []
   \<and> fst (deleteContact one_assignment (Some 1)) = Success
   \<and> assignments (snd (deleteContact one_assignment (Some 1))) = []
   \<and> fst (deleteUser one_assignment (Some 1)) = Success
   \<and> assignments (snd (deleteUser one_assignment (Some 1))) = []"
proof -
  note dc = delete_cascade [of one_assignment 1]
  have m: "1 \<in> set (map request.id (requests one_assignment))"
    "1 \<in> set (map contact.id (contacts one_assignment))"
    "1 \<in> set (map user.id (users one_assignment))"
    unfolding one_assignment_eval by simp_all
  have ex: "\<exists>q\<in>set (requests one_assignment). request.id q = 1"
    "\<exists>q\<in>set (contacts one_assignment). contact.id q = 1"
    "\<exists>q\<in>set (users one_assignment). user.id q = 1"
    by (rule in_map_ex [OF m(1)], rule in_map_ex [OF m(2)], rule in_map_ex [OF m(3)])
  have f: "filter (\<lambda>a. requestId a \<noteq> Some 1) (assignments one_assignment) = []"
    "filter (\<lambda>a. contactId a \<noteq> Some 1) (assignments one_assignment) = []"
    "filter (\<lambda>a. userId a \<noteq> Some 1) (assignments one_assignment) = []"
    by (rule filter_neq_map_Nil [OF one_assignment_eval(4)],
        rule filter_neq_map_Nil [OF one_assignment_eval(5)],
        rule filter_neq_map_Nil [OF one_assignment_eval(6)])
  from one_assignment_eval(4) have ne: "assignments one_assignment \<noteq> []" by auto
  from dc ex(1) have s1: "fst (deleteRequest one_assignment (Some 1)) = Success" by blast
  from dc ex(2) have s2: "fst (deleteContact one_assignment (Some 1)) = Success" by blast
  from dc ex(3) have s3: "fst (deleteUser one_assignment (Some 1)) = Success" by blast
  from dc s1 f(1) have a1: "assignments (snd (deleteRequest one_assignment (Some 1))) = []"
    by metis
  from dc s2 f(2) have a2: "assignments (snd (deleteContact one_assignment (Some 1))) = []"
    by metis
  from dc s3 f(3) have a3: "assignments (snd (deleteUser one_assignment (Some 1))) = []"
    by metis
  from s1 s2 s3 a1 a2 a3 ne show ?thesis by blast
qed

section \<open>Unique ids\<close>




section \<open>Usernames and emails of users\<close>

text \<open>
  C6. The handlers compare no username and no email. On the seed document,
  \<^verbatim>\<open>createUser\<close> with the username and email of user 1 succeeds and leaves two users
  with that username and that email, and so does \<^verbatim>\<open>updateUser\<close> on user 2.
\<close>

theorem duplicate_username_email:
  "map user.username (users seed) = [''admin1'', ''superadmin'', ''operator1'']
   \<and> map user.email (users seed)
       = [''admin1@roadside.com'', ''super@roadside.com'', ''op1@roadside.com'']
   \<and> fst (createUser seed ''admin1'' ''admin1@roadside.com'' ''operator'' ''active'' 5)
       = Success
   \<and> map user.username (users (snd
         (createUser seed ''admin1'' ''admin1@roadside.com'' ''operator'' ''active'' 5)))
       = [''admin1'', ''superadmin'', ''operator1'', ''admin1'']
   \<and> map user.email (users (snd
         (createUser seed ''admin1'' ''admin1@roadside.com'' ''operator'' ''active'' 5)))
       = [''admin1@roadside.com'', ''super@roadside.com'', ''op1@roadside.com'',
          ''admin1@roadside.com'']
   \<and> fst (updateUser seed (Some 2) ''admin1'' ''admin1@roadside.com'' ''super_admin''
         ''active'') = Success
   \<and> map user.username (users (snd
         (updateUser seed (Some 2) ''admin1'' ''admin1@roadside.com'' ''super_admin''
            ''active'')))
       = [''admin1'', ''admin1'', ''operator1'']
   \<and> map user.email (users (snd
         (updateUser seed (Some 2) ''admin1'' ''admin1@roadside.com'' ''super_admin''
            ''active'')))
       = [''admin1@roadside.com'', ''admin1@roadside.com'', ''op1@roadside.com'']"
  by (simp add: seed_def initialData_def createUser_def updateUser_def readDatabase_def
      getNextId_def Let_def)

section \<open>Re-assignment\<close>

text \<open>
  C7, as stated, fails in a document with two assignments for request 1: the upsert
  changes the first and leaves the second, so two assignments for the request remain.
  It fails too from the seed document for a \<^verbatim>\<open>requestId\<close> that \<^verbatim>\<open>parseInt\<close> cannot
  read: the second post leaves the assignment of the first as it was and appends
  another.
\<close>

theorem reassignment_counterexample:
  "map requestId (assignments two_for_one) = [Some 1, Some 1]
   \<and> filter (\<lambda>x. requestId x = Some 1)
       (assignments (snd (upsertAssignment two_for_one (Some 1) (Some 2) (Some 3)
          ''completed'' 20 20))) =
     [\<lparr>assignment.id = 1, requestId = Some 1, contactId = Some 2, userId = Some 3,
       status = ''completed'', createdAt = 10\<rparr>,
      \<lparr>assignment.id = 2, requestId = Some 1, contactId = Some 2, userId = Some 2,
       status = ''assigned'', createdAt = 11\<rparr>]
   \<and> map requestId (assignments unreadable_once) = [None]
   \<and> map requestId (assignments (snd (upsertAssignment unreadable_once None (Some 2) (Some 3)
          ''completed'' 6 6))) = [None, None]
   \<and> map contactId (assignments (snd (upsertAssignment unreadable_once None (Some 2) (Some 3)
          ''completed'' 6 6))) = [Some 1, Some 2]"
proof -
  have "map requestId (assignments two_for_one) = [Some 1, Some 1]"
    by (simp add: two_for_one_def)
  moreover have "filter (\<lambda>x. requestId x = Some 1)
       (assignments (snd (upsertAssignment two_for_one (Some 1) (Some 2) (Some 3)
          ''completed'' 20 20))) =
     [\<lparr>assignment.id = 1, requestId = Some 1, contactId = Some 2, userId = Some 3,
       status = ''completed'', createdAt = 10\<rparr>,
      \<lparr>assignment.id = 2, requestId = Some 1, contactId = Some 2, userId = Some 2,
       status = ''assigned'', createdAt = 11\<rparr>]"
    unfolding two_for_one_upsert by simp
  moreover have "map requestId (assignments unreadable_once) = [None]"
    unfolding unreadable_once_assignments by simp
  moreover have "map requestId (assignments (snd (upsertAssignment unreadable_once None
      (Some 2) (Some 3) ''completed'' 6 6))) = [None, None]"
    "map contactId (assignments (snd (upsertAssignment unreadable_once None (Some 2) (Some 3)
          ''completed'' 6 6))) = [Some 1, Some 2]"
    using unreadable_twice_assignments unfolding unreadable_twice_def by simp_all
  ultimately show ?thesis by blast
qed

text \<open>
  C7, amended. In a document with exactly one assignment \<open>a\<close> whose \<^verbatim>\<open>requestId\<close>
  is the integer \<open>r\<close>, \<^verbatim>\<open>upsertAssignment(r, c, u, st)\<close> leaves exactly one
  assignment for \<open>r\<close>: it is \<open>a\<close> with \<^verbatim>\<open>contactId\<close>, \<^verbatim>\<open>userId\<close> and
  \<^verbatim>\<open>status\<close> replaced by the arguments, so its \<^verbatim>\<open>id\<close> and \<^verbatim>\<open>createdAt\<close> are
  those of \<open>a\<close>. Every document reached from the seed document that holds an assignment
  for \<open>r\<close> holds exactly one. In any document with an assignment for \<open>r\<close>, two
  upserts on \<open>r\<close> in a row give the response and the document of the second alone.
\<close>

theorem reassignment:
  "(filter (\<lambda>x. requestId x = Some r) (assignments d) = [a] \<longrightarrow>
      filter (\<lambda>x. requestId x = Some r)
        (assignments (snd (upsertAssignment d (Some r) c u st t1 t2)))
      = [a\<lparr>contactId := c, userId := u, assignment.status := st\<rparr>])
   \<and> (b \<in> set (assignments (run (initialData clk) ops)) \<and> requestId b = Some r \<longrightarrow>
      filter (\<lambda>x. requestId x = Some r) (assignments (run (initialData clk) ops)) = [b])
   \<and> ((\<exists>x\<in>set (assignments d). requestId x = Some r) \<longrightarrow>
      upsertAssignment (snd (upsertAssignment d (Some r) c1 u1 s1 t1' t2'))
        (Some r) c u st t1 t2
       = upsertAssignment d (Some r) c u st t1 t2)"
proof -
  have "filter (\<lambda>x. requestId x = Some r)
        (assignments (snd (upsertAssignment d (Some r) c u st t1 t2)))
      = [a\<lparr>contactId := c, userId := u, assignment.status := st\<rparr>]"
    if "filter (\<lambda>x. requestId x = Some r) (assignments d) = [a]"
    using that by (rule upsertAssignment_single)
  moreover have "filter (\<lambda>x. requestId x = Some r) (assignments (run (initialData clk) ops))
      = [b]"
    if "b \<in> set (assignments (run (initialData clk) ops))" "requestId b = Some r"
  proof -
    have "one_per_request (run (initialData clk) ops)"
      by (rule run_one_per_request) (rule initialData_one_per_request)
    then have "distinct (filter (\<lambda>x. x \<noteq> None)
        (map requestId (assignments (run (initialData clk) ops))))"
      unfolding one_per_request_def .
    from distinct_known_filter_single [OF this that] show ?thesis .
  qed
  moreover have "upsertAssignment (snd (upsertAssignment d (Some r) c1 u1 s1 t1' t2'))
        (Some r) c u st t1 t2
       = upsertAssignment d (Some r) c u st t1 t2"
    if "\<exists>x\<in>set (assignments d). requestId x = Some r"
    using that by (rule upsertAssignment_twice)
  ultimately show ?thesis by blast
qed

theorem reassignment_witness:
  "filter (\<lambda>x. requestId x = Some 1) (assignments one_assignment)
      = [\<lparr>assignment.id = 1, requestId = Some 1, contactId = Some 1, userId = Some 1,
          status = ''assigned'', createdAt = 10\<rparr>]
   \<and> filter (\<lambda>x. requestId x = Some 1)
        (assignments (snd (upsertAssignment one_assignment (Some 1) (Some 2) (Some 3)
           ''completed'' 20 20)))
      = [\<lparr>assignment.id = 1, requestId = Some 1, contactId = Some 2, userId = Some 3,
          status = ''completed'', createdAt = 10\<rparr>]
   \<and> upsertAssignment
        (snd (upsertAssignment one_assignment (Some 1) (Some 3) (Some 2) ''in_progress'' 15 15))
        (Some 1) (Some 2) (Some 3) ''completed'' 20 20
      = upsertAssignment one_assignment (Some 1) (Some 2) (Some 3) ''completed'' 20 20"
proof -
  let ?a = "\<lparr>assignment.id = 1, requestId = Some 1, contactId = Some 1, userId = Some 1,
     status = ''assigned'', createdAt = 10\<rparr>"
  note r = reassignment [where clk = "\<lambda>k. 0" and ops =
      "[CreateRequest (Str ''Jane, Toyota, Rabat'') Null 10 10,
        UpsertAssignment (Some 1) (Some 1) (Some 1) ''assigned'' 10 10]"
      and a = ?a and b = ?a and r = 1 and c = "Some 2" and u = "Some 3"
      and st = "''completed''" and ?t1.0 = 20 and ?t2.0 = 20 and d = one_assignment
      and ?c1.0 = "Some 3" and ?u1.0 = "Some 2" and ?s1.0 = "''in_progress''"
      and t1' = 15 and t2' = 15, unfolded run_one_assignment]
  have mem: "?a \<in> set (assignments one_assignment)" "requestId ?a = Some 1"
    unfolding one_assignment_assignments by simp_all
  with r have one: "filter (\<lambda>x. requestId x = Some 1) (assignments one_assignment) = [?a]"
    by blast
  from mem have ex: "\<exists>x\<in>set (assignments one_assignment). requestId x = Some 1"
    by blast
  from r one have "filter (\<lambda>x. requestId x = Some 1)
        (assignments (snd (upsertAssignment one_assignment (Some 1) (Some 2) (Some 3)
           ''completed'' 20 20)))
      = [?a\<lparr>contactId := Some 2, userId := Some 3, assignment.status := ''completed''\<rparr>]"
    by blast
  then have f: "filter (\<lambda>x. requestId x = Some 1)
        (assignments (snd (upsertAssignment one_assignment (Some 1) (Some 2) (Some 3)
           ''completed'' 20 20)))
      = [\<lparr>assignment.id = 1, requestId = Some 1, contactId = Some 2, userId = Some 3,
          status = ''completed'', createdAt = 10\<rparr>]"
    by simp
  from r ex have t: "upsertAssignment
        (snd (upsertAssignment one_assignment (Some 1) (Some 3) (Some 2) ''in_progress'' 15 15))
        (Some 1) (Some 2) (Some 3) ''completed'' 20 20
      = upsertAssignment one_assignment (Some 1) (Some 2) (Some 3) ''completed'' 20 20"
    by blast
  from one f t show ?thesis by blast
qed

section \<open>updateRequestStatus\<close>

text \<open>
  C8. \<^verbatim>\<open>updateRequestStatus(id, status)\<close> answers NotFound exactly when no request has
  that id, and then persists nothing. When a request has that id, the first such
  request (index \<open>k\<close>) gets the given status, whatever the text, and the clock reading
  as \<^verbatim>\<open>updatedAt\<close>; its other fields, the other requests and the other collections are
  as before. An id that \<^verbatim>\<open>parseInt\<close> cannot read is the id of no request.
\<close>

theorem updateRequestStatus_spec:
  "(fst (updateRequestStatus d (Some i) st now) = NotFound
      \<longleftrightarrow> (\<forall>r\<in>set (requests d). request.id r \<noteq> i))
   \<and> (fst (updateRequestStatus d (Some i) st now) = NotFound
        \<longrightarrow> snd (updateRequestStatus d (Some i) st now) = d)
   \<and> ((\<exists>r\<in>set (requests d). request.id r = i) \<longrightarrow>
        (\<exists>k<length (requests d). request.id (requests d ! k) = i
            \<and> (\<forall>j<k. request.id (requests d ! j) \<noteq> i)
            \<and> updateRequestStatus d (Some i) st now =
                (Success, d\<lparr>requests := (requests d)[k :=
                    (requests d ! k)\<lparr>request.status := st, updatedAt := now\<rparr>]\<rparr>)))
   \<and> updateRequestStatus d None st now = (NotFound, d)"
proof -
  have nan: "updateRequestStatus d None st now = (NotFound, d)"
  proof -
    have "findIndex (\<lambda>r. strict_eq (Some (request.id r)) None) (requests d) = None"
      by (simp add: findIndex_None_iff)
    then show ?thesis by (simp add: updateRequestStatus_def readDatabase_def)
  qed
  show ?thesis
  proof (cases "findIndex (\<lambda>r. strict_eq (Some (request.id r)) (Some i)) (requests d)")
    case None
    then have "\<forall>r\<in>set (requests d). request.id r \<noteq> i"
      by (simp add: findIndex_None_iff)
    with None nan show ?thesis
      by (simp add: updateRequestStatus_def readDatabase_def)
  next
    case (Some k)
    from findIndex_SomeD [OF Some]
    have k: "k < length (requests d)" "request.id (requests d ! k) = i"
      "\<forall>j<k. request.id (requests d ! j) \<noteq> i"
      by simp_all
    have ex: "\<exists>r\<in>set (requests d). request.id r = i"
      using k(1,2) nth_mem by blast
    have eq: "updateRequestStatus d (Some i) st now =
        (Success, d\<lparr>requests := (requests d)[k :=
                      (requests d ! k)\<lparr>request.status := st, updatedAt := now\<rparr>]\<rparr>)"
      using Some k(1) by (simp add: updateRequestStatus_def readDatabase_def Let_def)
    from ex eq k nan show ?thesis by auto
  qed
qed

theorem updateRequestStatus_spec_witness:
  "fst (updateRequestStatus seed (Some 999) ''Completed'' 20) = NotFound
   \<and> snd (updateRequestStatus seed (Some 999) ''Completed'' 20) = seed
   \<and> (\<exists>r\<in>set (requests one_request). request.id r = 1)
   \<and> fst (updateRequestStatus one_request (Some 1) ''whatever'' 20) = Success"
proof -
  have no: "\<forall>r\<in>set (requests seed). request.id r \<noteq> 999"
    using seed_eval(2) by simp
  have ex: "\<exists>r\<in>set (requests one_request). request.id r = 1"
    unfolding one_request_requests by simp
  from no updateRequestStatus_spec [of seed 999 "''Completed''" 20]
  have a: "fst (updateRequestStatus seed (Some 999) ''Completed'' 20) = NotFound"
    "snd (updateRequestStatus seed (Some 999) ''Completed'' 20) = seed"
    by blast+
  from ex updateRequestStatus_spec [of one_request 1 "''whatever''" 20]
  obtain k where "updateRequestStatus one_request (Some 1) ''whatever'' 20 =
      (Success, one_request\<lparr>requests := (requests one_request)[k :=
         (requests one_request ! k)\<lparr>request.status := ''whatever'', updatedAt := 20\<rparr>]\<rparr>)"
    by blast
  then have "fst (updateRequestStatus one_request (Some 1) ''whatever'' 20) = Success"
    by simp
  with a ex show ?thesis by blast
qed

section \<open>No write on NotFound\<close>

text \<open>
  C9. An operation that answers NotFound leaves the persisted document as it was. This
  holds for \<^verbatim>\<open>deleteRequest\<close> and \<^verbatim>\<open>deleteContact\<close> too, which filter the
  assignments of the object they have read before they look the entity up: the filtered
  object is not written.
\<close>

theorem not_found_persists_nothing:
  "(fst (step d x) = NotFound \<longrightarrow> snd (step d x) = d)
   \<and> ((\<forall>q\<in>set (requests d). request.id q \<noteq> i) \<longrightarrow>
        deleteRequest d (Some i) = (NotFound, d))
   \<and> ((\<forall>q\<in>set (contacts d). contact.id q \<noteq> i) \<longrightarrow>
        deleteContact d (Some i) = (NotFound, d))
   \<and> deleteRequest d None = (NotFound, d)
   \<and> deleteContact d None = (NotFound, d)"
proof -
  have "fst (step d x) = NotFound \<longrightarrow> snd (step d x) = d"
    by (cases x)
      (simp_all add: createRequest_def updateRequestStatus_def deleteRequest_def
        createContact_def updateContact_def deleteContact_def createUser_def updateUser_def
        deleteUser_def createAdmin_def updateAdmin_def deleteAdmin_def upsertAssignment_def
        Let_def split: option.splits)
  moreover have "deleteRequest d (Some i) = (NotFound, d)"
    if "\<forall>q\<in>set (requests d). request.id q \<noteq> i"
  proof -
    from that have "findIndex (\<lambda>q. strict_eq (Some (request.id q)) (Some i)) (requests d)
        = None"
      by (simp add: findIndex_None_iff)
    then show ?thesis by (simp add: deleteRequest_def readDatabase_def)
  qed
  moreover have "deleteContact d (Some i) = (NotFound, d)"
    if "\<forall>q\<in>set (contacts d). contact.id q \<noteq> i"
  proof -
    from that have "findIndex (\<lambda>q. strict_eq (Some (contact.id q)) (Some i)) (contacts d)
        = None"
      by (simp add: findIndex_None_iff)
    then show ?thesis by (simp add: deleteContact_def readDatabase_def)
  qed
  moreover have "deleteRequest d None = (NotFound, d)"
  proof -
    have "findIndex (\<lambda>q. strict_eq (Some (request.id q)) None) (requests d) = None"
      by (simp add: findIndex_None_iff)
    then show ?thesis by (simp add: deleteRequest_def readDatabase_def)
  qed
  moreover have "deleteContact d None = (NotFound, d)"
  proof -
    have "findIndex (\<lambda>q. strict_eq (Some (contact.id q)) None) (contacts d) = None"
      by (simp add: findIndex_None_iff)
    then show ?thesis by (simp add: deleteContact_def readDatabase_def)
  qed
  ultimately show ?thesis by blast
qed

theorem not_found_persists_nothing_witness:
  "fst (step dangling (DeleteRequest (Some 999))) = NotFound
   \<and> snd (step dangling (DeleteRequest (Some 999))) = dangling
   \<and> deleteRequest dangling (Some 999) = (NotFound, dangling)
   \<and> deleteContact dangling (Some 888) = (NotFound, dangling)
   \<and> map requestId (assignments dangling) = [Some 999]
   \<and> map contactId (assignments dangling) = [Some 888]"
proof -
  have r: "\<forall>q\<in>set (requests dangling). request.id q \<noteq> 999"
    using dangling_eval(3) by simp
  have "\<forall>y\<in>set (map contact.id (contacts dangling)). y \<noteq> 888"
    unfolding dangling_eval(4) by simp
  then have c: "\<forall>q\<in>set (contacts dangling). contact.id q \<noteq> 888"
    by simp
  have dr: "deleteRequest dangling (Some 999) = (NotFound, dangling)"
    using r not_found_persists_nothing [of dangling "DeleteRequest (Some 999)" 999] by blast
  have dc: "deleteContact dangling (Some 888) = (NotFound, dangling)"
    using c not_found_persists_nothing [of dangling "DeleteRequest (Some 999)" 888] by blast
  from dr dc dangling_eval(1,2) show ?thesis by simp
qed

section \<open>Duplicates after cleanRequests\<close>

text \<open>
  C10. The script looks for duplicates on the records as read and substitutes the
  placeholder afterwards. Three records of one requester, the first with the placeholder
  as \<^verbatim>\<open>imageUrl\<close>, the second with null, the third with none, have three different
  keys: all three are kept, and the output holds three records with the same
  \<^verbatim>\<open>userInfo\<close> and \<^verbatim>\<open>imageUrl\<close>. A second run of the script on that output keeps
  one of them.
\<close>

theorem cleanRequests_duplicate_pair:
  "cleanRequests [placeholder_photo, no_photo, missing_photo] =
     [\<lparr>request.id = 1, userInfo = Str ''Jane, Toyota, Rabat'',
       imageUrl = Str ''/uploads/placeholder.png'',
       status = ''Submitted'', createdAt = 10, updatedAt = 10\<rparr>,
      \<lparr>request.id = 2, userInfo = Str ''Jane, Toyota, Rabat'',
       imageUrl = Str ''/uploads/placeholder.png'',
       status = ''Submitted'', createdAt = 20, updatedAt = 20\<rparr>,
      \<lparr>request.id = 3, userInfo = Str ''Jane, Toyota, Rabat'',
       imageUrl = Str ''/uploads/placeholder.png'',
       status = ''Submitted'', createdAt = 30, updatedAt = 30\<rparr>]
   \<and> userInfo (cleanRequests [placeholder_photo, no_photo, missing_photo] ! 0)
       = userInfo (cleanRequests [placeholder_photo, no_photo, missing_photo] ! 1)
   \<and> imageUrl (cleanRequests [placeholder_photo, no_photo, missing_photo] ! 0)
       = imageUrl (cleanRequests [placeholder_photo, no_photo, missing_photo] ! 1)
   \<and> cleanRequests (cleanRequests [placeholder_photo, no_photo, missing_photo]) =
     [\<lparr>request.id = 1, userInfo = Str ''Jane, Toyota, Rabat'',
       imageUrl = Str ''/uploads/placeholder.png'',
       status = ''Submitted'', createdAt = 10, updatedAt = 10\<rparr>]"
  unfolding cleanRequests_example_again unfolding cleanRequests_example by simp

end
